theory Spec2Isabelle
  imports Main "HOL-Library.Word" "HOL-Library.Multiset" "HOL-Library.List_Lexorder"
    "HOL-Library.Char_ord"
begin

unbundle bit_operations_syntax

section \<open>Go values\<close>

text \<open>
  The policy package works on \<^verbatim>\<open>map[string]interface{}\<close>: the conditions of a
  permission come from the YAML decoder, the parameters of a request from the JSON
  decoder. A \<open>float64\<close> is its IEEE-754 bit pattern. A Go map is an association list
  with distinct keys whose order is the order in which one \<^verbatim>\<open>range\<close> statement
  happens to visit the entries; Go fixes no such order, so every statement about a map
  is made for every order of its entries.
\<close>

type_synonym float64 = "64 word"

datatype gval =
    GNil
  | GBool bool
  | GInt "64 word"
  | GUint64 "64 word"
  | GFloat64 float64
  | GString string
  | GSlice "gval list"
  | GMap "(string \<times> gval) list"

text \<open>A value of type \<^verbatim>\<open>map[string]interface{}\<close>; \<open>None\<close> is the nil map.\<close>

type_synonym go_map = "(string \<times> gval) list option"

definition index_map :: "go_map \<Rightarrow> string \<Rightarrow> gval" where
  "index_map m k =
     (case m of None \<Rightarrow> GNil
      | Some kvs \<Rightarrow> (case map_of kvs k of None \<Rightarrow> GNil | Some v \<Rightarrow> v))"

subsection \<open>float64\<close>

definition f64_sign :: "float64 \<Rightarrow> bool" where
  "f64_sign w = bit w 63"

definition f64_exp :: "float64 \<Rightarrow> int" where
  "f64_exp w = uint (drop_bit 52 w) mod 2048"

definition f64_frac :: "float64 \<Rightarrow> int" where
  "f64_frac w = uint w mod 2 ^ 52"

definition f64_isNaN :: "float64 \<Rightarrow> bool" where
  "f64_isNaN w = (f64_exp w = 2047 \<and> f64_frac w \<noteq> 0)"

definition f64_isInf :: "float64 \<Rightarrow> bool" where
  "f64_isInf w = (f64_exp w = 2047 \<and> f64_frac w = 0)"


text \<open>
  The magnitude in units of \<open>2^-1074\<close>, the smallest subnormal. An infinity reads as
  \<open>2^2098\<close>, above every finite magnitude, so one order serves all values but NaN.
\<close>

definition f64_mag :: "float64 \<Rightarrow> int" where
  "f64_mag w =
     (if f64_exp w = 0 then f64_frac w
      else (2 ^ 52 + f64_frac w) * 2 ^ nat (f64_exp w - 1))"

definition f64_scaled :: "float64 \<Rightarrow> int" where
  "f64_scaled w = (if f64_sign w then - f64_mag w else f64_mag w)"

text \<open>Go's \<^verbatim>\<open>a > b\<close> and \<^verbatim>\<open>a == b\<close> on float64: false whenever a NaN is involved.\<close>

definition f64_gt :: "float64 \<Rightarrow> float64 \<Rightarrow> bool" where
  "f64_gt a b = (\<not> f64_isNaN a \<and> \<not> f64_isNaN b \<and> f64_scaled a > f64_scaled b)"


text \<open>\<^verbatim>\<open>bits.Len\<close>: the number of bits of a magnitude.\<close>

function bits_Len :: "int \<Rightarrow> nat" where
  "bits_Len n = (if n \<le> 0 then 0 else Suc (bits_Len (n div 2)))"
  by pat_completeness auto
termination
  by (relation "measure nat") auto

declare bits_Len.simps [simp del]

text \<open>
  The conversion \<^verbatim>\<open>float64(v)\<close> of a Go \<open>int\<close>: exact up to 53 bits, rounded to the
  nearest float64, ties to the even significand, beyond. The result of the rounding is
  the 53-bit significand and the exponent of its leading bit.
\<close>

definition f64_round :: "int \<Rightarrow> int \<times> int" where
  "f64_round a =
     (let n = bits_Len a in
      if n \<le> 53 then (a * 2 ^ (53 - n), int n - 1)
      else
        (let sh = n - 53;
             q = a div 2 ^ sh;
             r = a mod 2 ^ sh;
             q' = (if 2 * r > 2 ^ sh \<or> (2 * r = 2 ^ sh \<and> odd q) then q + 1 else q)
         in if q' = 2 ^ 53 then (2 ^ 52, int n) else (q', int n - 1)))"

definition f64_of_int :: "int \<Rightarrow> float64" where
  "f64_of_int v =
     (if v = 0 then 0
      else
        (let (m, e) = f64_round \<bar>v\<bar>
         in (if v < 0 then push_bit 63 1 else 0)
            OR push_bit 52 (word_of_int (e + 1023))
            OR word_of_int (m - 2 ^ 52)))"

subsection \<open>Formatting with \<^verbatim>\<open>%.2f\<close>\<close>

definition digit_char :: "int \<Rightarrow> char" where
  "digit_char d = ''0123456789'' ! nat d"

function decimal :: "int \<Rightarrow> string" where
  "decimal n = (if n < 10 then [digit_char n] else decimal (n div 10) @ [digit_char (n mod 10)])"
  by pat_completeness auto
termination
  by (relation "measure nat") auto

declare decimal.simps [simp del]

text \<open>
  \<^verbatim>\<open>fmt.Sprintf("%.2f", x)\<close>: the exact value of \<open>x\<close> rounded to hundredths, ties to
  the even digit; the sign is printed whenever the sign bit is set.
\<close>

definition hundredths :: "float64 \<Rightarrow> int" where
  "hundredths x =
     (let n = f64_mag x * 100;
          q = n div 2 ^ 1074;
          r = n mod 2 ^ 1074
      in if 2 * r > 2 ^ 1074 \<or> (2 * r = 2 ^ 1074 \<and> odd q) then q + 1 else q)"

definition Sprintf_2f :: "float64 \<Rightarrow> string" where
  "Sprintf_2f x =
     (if f64_isNaN x then ''NaN''
      else if f64_isInf x then (if f64_sign x then ''-Inf'' else ''+Inf'')
      else
        (let h = hundredths x
         in (if f64_sign x then ''-'' else '''')
            @ decimal (h div 100) @ ''.''
            @ [digit_char (h mod 100 div 10), digit_char (h mod 10)]))"

section \<open>Policy model (internal/policy)\<close>

record Permission =
  Perm_Tool :: string
  Perm_Actions :: "string list"
  Perm_Conditions :: "(string \<times> gval) list"

record Agent =
  Agent_ID :: string
  Agent_Allow :: "Permission list"

record Policy =
  Policy_Version :: int
  Policy_Agents :: "Agent list"

record Decision =
  Decision_Allow :: bool
  Decision_Reason :: string
  Decision_Version :: int

text \<open>\<open>Manager.policies\<close>: file name to policy, in the order one \<^verbatim>\<open>range\<close> visits it.\<close>

type_synonym policies = "(string \<times> Policy) list"

subsection \<open>check_conditions\<close>

text \<open>The type switch on the value of \<open>max_amount\<close>; \<open>None\<close> is the default branch.\<close>

fun max_amount_value :: "gval \<Rightarrow> float64 option" where
  "max_amount_value (GFloat64 v) = Some v"
| "max_amount_value (GInt v) = Some (f64_of_int (sint v))"
| "max_amount_value _ = None"

fun currencyFound :: "gval list \<Rightarrow> string \<Rightarrow> bool" where
  "currencyFound [] cur = False"
| "currencyFound (c # cs) cur =
     (case c of
        GString cStr \<Rightarrow> (if cStr = cur then True else currencyFound cs cur)
      | _ \<Rightarrow> currencyFound cs cur)"

definition HasPrefix :: "string \<Rightarrow> string \<Rightarrow> bool" where
  "HasPrefix s pfx = (length s \<ge> length pfx \<and> take (length pfx) s = pfx)"

text \<open>
  One pass through the body of the loop: \<open>Some reason\<close> where the body returns,
  \<open>None\<close> where it goes on to the next entry. The warnings printed on the default
  branches go to standard output and are no part of the result.
\<close>

definition check_condition :: "string \<Rightarrow> gval \<Rightarrow> go_map \<Rightarrow> string option" where
  "check_condition condName condVal params =
     (if condName = ''max_amount'' then
        (case max_amount_value condVal of
           None \<Rightarrow> None
         | Some maxAmt \<Rightarrow>
             (case index_map params ''amount'' of
                GFloat64 amt \<Rightarrow>
                  (if f64_gt amt maxAmt
                   then Some (''Amount '' @ Sprintf_2f amt @ '' exceeds max_amount=''
                              @ Sprintf_2f maxAmt)
                   else None)
              | _ \<Rightarrow> Some ''Invalid amount parameter''))
      else if condName = ''currencies'' then
        (case condVal of
           GSlice allowedCurrs \<Rightarrow>
             (case index_map params ''currency'' of
                GString cur \<Rightarrow>
                  (if currencyFound allowedCurrs cur then None
                   else Some (''Currency '' @ cur @ '' not in allowed list''))
              | _ \<Rightarrow> Some ''Invalid currency parameter'')
         | _ \<Rightarrow> None)
      else if condName = ''folder_prefix'' then
        (case condVal of
           GString pfx \<Rightarrow>
             (case index_map params ''path'' of
                GString pth \<Rightarrow>
                  (if HasPrefix pth pfx then None
                   else Some (''Path '' @ pth @ '' does not match required prefix '' @ pfx))
              | _ \<Rightarrow> Some ''Invalid path parameter'')
         | _ \<Rightarrow> None)
      else None)"

fun check_conditions :: "(string \<times> gval) list \<Rightarrow> go_map \<Rightarrow> string" where
  "check_conditions [] params = ''''"
| "check_conditions ((condName, condVal) # rest) params =
     (case check_condition condName condVal params of
        Some reason \<Rightarrow> reason
      | None \<Rightarrow> check_conditions rest params)"

subsection \<open>Evaluate\<close>

fun actionAllowed :: "string list \<Rightarrow> string \<Rightarrow> bool" where
  "actionAllowed [] action = False"
| "actionAllowed (a # as) action = (if a = action then True else actionAllowed as action)"

definition perm_matches :: "Permission \<Rightarrow> string \<Rightarrow> string \<Rightarrow> bool" where
  "perm_matches perm tool action =
     (Perm_Tool perm = tool \<and> actionAllowed (Perm_Actions perm) action)"

definition decide :: "int \<Rightarrow> Permission \<Rightarrow> go_map \<Rightarrow> Decision" where
  "decide version perm params =
     (let reason = check_conditions (Perm_Conditions perm) params
      in if reason \<noteq> ''''
         then \<lparr>Decision_Allow = False, Decision_Reason = reason, Decision_Version = version\<rparr>
         else \<lparr>Decision_Allow = True, Decision_Reason = ''Policy allows this action'',
               Decision_Version = version\<rparr>)"

text \<open>The three nested loops; \<open>None\<close> where a loop runs to its end without returning.\<close>

fun eval_perms :: "int \<Rightarrow> Permission list \<Rightarrow> string \<Rightarrow> string \<Rightarrow> go_map \<Rightarrow> Decision option" where
  "eval_perms version [] tool action params = None"
| "eval_perms version (perm # rest) tool action params =
     (if Perm_Tool perm \<noteq> tool then eval_perms version rest tool action params
      else if \<not> actionAllowed (Perm_Actions perm) action
        then eval_perms version rest tool action params
      else Some (decide version perm params))"

fun eval_agents :: "int \<Rightarrow> Agent list \<Rightarrow> string \<Rightarrow> string \<Rightarrow> string \<Rightarrow> go_map \<Rightarrow> Decision option" where
  "eval_agents version [] agentID tool action params = None"
| "eval_agents version (agent # rest) agentID tool action params =
     (if Agent_ID agent \<noteq> agentID then eval_agents version rest agentID tool action params
      else
        (case eval_perms version (Agent_Allow agent) tool action params of
           Some d \<Rightarrow> Some d
         | None \<Rightarrow> eval_agents version rest agentID tool action params))"

fun eval_policies :: "policies \<Rightarrow> string \<Rightarrow> string \<Rightarrow> string \<Rightarrow> go_map \<Rightarrow> Decision option" where
  "eval_policies [] agentID tool action params = None"
| "eval_policies ((name, policy) # rest) agentID tool action params =
     (case eval_agents (Policy_Version policy) (Policy_Agents policy) agentID tool action params of
        Some d \<Rightarrow> Some d
      | None \<Rightarrow> eval_policies rest agentID tool action params)"

definition no_policy_found :: "string \<Rightarrow> string \<Rightarrow> string \<Rightarrow> Decision" where
  "no_policy_found agentID tool action =
     \<lparr>Decision_Allow = False,
      Decision_Reason = ''No policy found for agent='' @ agentID @ '', tool='' @ tool
                        @ '', action='' @ action,
      Decision_Version = 0\<rparr>"

definition Evaluate :: "policies \<Rightarrow> string \<Rightarrow> string \<Rightarrow> string \<Rightarrow> go_map \<Rightarrow> Decision" where
  "Evaluate ps agentID tool action params =
     (case eval_policies ps agentID tool action params of
        Some d \<Rightarrow> d
      | None \<Rightarrow> no_policy_found agentID tool action)"

subsection \<open>Loading policies\<close>

text \<open>
  What \<^verbatim>\<open>os.ReadFile\<close> followed by \<^verbatim>\<open>yaml.Unmarshal\<close> gives for one file, and what
  \<^verbatim>\<open>os.ReadDir\<close> gives for the policy directory (\<open>Inl\<close> is its error text).
\<close>

datatype file_result = Unreadable string | Unparsable string | Parsed Policy

record DirEntry =
  entry_Name :: string
  entry_IsDir :: bool
  entry_File :: file_result

type_synonym dir_result = "string + DirEntry list"

definition HasSuffix :: "string \<Rightarrow> string \<Rightarrow> bool" where
  "HasSuffix s sfx =
     (length s \<ge> length sfx \<and> drop (length s - length sfx) s = sfx)"

definition check_policy_valid :: "Policy \<Rightarrow> string option" where
  "check_policy_valid p =
     (if Policy_Version p < 1 then Some ''policy version must be >= 1''
      else if length (Policy_Agents p) = 0 then Some ''policy must have at least one agent''
      else if \<exists>agent \<in> set (Policy_Agents p). Agent_ID agent = ''''
        then Some ''agent ID cannot be empty''
      else None)"

fun load_entries :: "DirEntry list \<Rightarrow> policies \<Rightarrow> policies" where
  "load_entries [] newPolicies = newPolicies"
| "load_entries (entry # rest) newPolicies =
     (if entry_IsDir entry \<or> \<not> HasSuffix (entry_Name entry) ''.yaml''
      then load_entries rest newPolicies
      else
        (case entry_File entry of
           Parsed pol \<Rightarrow>
             (case check_policy_valid pol of
                Some err \<Rightarrow> load_entries rest newPolicies
              | None \<Rightarrow>
                  load_entries rest
                    (filter (\<lambda>kv. fst kv \<noteq> entry_Name entry) newPolicies
                     @ [(entry_Name entry, pol)]))
         | _ \<Rightarrow> load_entries rest newPolicies))"

text \<open>\<open>load_policies\<close> and \<open>Reload\<close>: the error returned and the policies held afterwards.\<close>

definition load_policies :: "dir_result \<Rightarrow> policies \<Rightarrow> string option \<times> policies" where
  "load_policies d old =
     (case d of
        Inl err \<Rightarrow> (Some (''failed to read policies directory: '' @ err), old)
      | Inr entries \<Rightarrow> (None, load_entries entries []))"

definition Reload :: "dir_result \<Rightarrow> policies \<Rightarrow> string option \<times> policies" where
  "Reload d old = load_policies d old"

subsection \<open>HashParams\<close>

text \<open>
  Everything the code takes from libraries or from outside the process and that is not
  modelled further: how \<^verbatim>\<open>encoding/json\<close> writes a number and a string, SHA-256, whether
  \<^verbatim>\<open>http.NewRequestWithContext\<close> accepts a URL, what the adapter behind a URL answers
  (\<open>Inl\<close> a transport error; otherwise the status and the body, \<open>None\<close> when reading
  the body fails), and the clock and the span of the request.
\<close>

record Env =
  json_number :: "float64 \<Rightarrow> string"
  json_string :: "string \<Rightarrow> string"
  sha256_Sum256 :: "string \<Rightarrow> 256 word"
  NewRequest_error :: "string \<Rightarrow> string option"
  client_Do :: "string \<Rightarrow> string \<Rightarrow> string + (nat \<times> string option)"
  now_RFC3339 :: string
  span_TraceID :: "string option"
  latency_ms :: float64











section \<open>Audit log (pkg/telemetry)\<close>

record AuditLog =
  log_Timestamp :: string
  log_TraceID :: string
  log_AgentID :: string
  log_Tool :: string
  log_Action :: string
  log_Decision :: bool
  log_Reason :: string
  log_Version :: int
  log_ParamsHash :: string
  log_LatencyMs :: float64
  log_ParentAgent :: string

text \<open>
  What a handler does besides answering: the calls to the policy manager, the audit
  records written (one line on standard output and one in the log file each), and the
  requests sent to adapters.
\<close>

datatype effect =
    Evaluated string string string go_map
  | Audit AuditLog
  | AdapterPOST string string

definition LogDecision ::
  "Env \<Rightarrow> string \<Rightarrow> string \<Rightarrow> string \<Rightarrow> string \<Rightarrow> string \<Rightarrow> string \<Rightarrow> bool \<Rightarrow> int \<Rightarrow> float64 \<Rightarrow> effect list" where
  "LogDecision E agentID tool action reason paramsHash parentAgent allowed version latencyMs =
     (let traceID = (case span_TraceID E of Some t \<Rightarrow> t | None \<Rightarrow> '''')
      in [Audit \<lparr>log_Timestamp = now_RFC3339 E, log_TraceID = traceID, log_AgentID = agentID,
                 log_Tool = tool, log_Action = action, log_Decision = allowed,
                 log_Reason = reason, log_Version = version, log_ParamsHash = paramsHash,
                 log_LatencyMs = latencyMs, log_ParentAgent = parentAgent\<rparr>])"

section \<open>Gateway (internal/gateway)\<close>

text \<open>
  A request as the handler sees it: the two path variables, the two headers (an absent
  header reads as the empty string), and the body. The body is what \<^verbatim>\<open>io.ReadAll\<close> and
  the JSON decoder make of it: a read error, bytes that are not JSON, or bytes together
  with the Go value they decode to.
\<close>

datatype request_body =
    ReadError
  | Malformed string
  | Decoded string gval

record Request =
  var_tool :: string
  var_action :: string
  X_Agent_ID :: string
  X_Parent_Agent :: string
  req_Body :: request_body

record ErrorResponse =
  err_Error :: string
  err_Reason :: string

text \<open>
  What a handler hands to the \<open>ResponseWriter\<close>: the status, the content type, and the
  body, which is either an \<open>ErrorResponse\<close> given to the JSON encoder or bytes written
  as they are.
\<close>

datatype body =
    Encoded ErrorResponse
  | Bytes string

record Response =
  StatusCode :: nat
  Content_Type :: string
  resp_Body :: body

record Gateway =
  policyManager :: policies
  adapters :: "string \<rightharpoonup> string"

text \<open>
  \<^verbatim>\<open>json.Unmarshal(requestBody, &requestParams)\<close> with \<open>requestParams\<close> a nil
  \<^verbatim>\<open>map[string]interface{}\<close>: an object fills the map, the literal \<open>null\<close> leaves it
  nil without an error, every other value is a type error.
\<close>

datatype json_error = SyntaxError | UnmarshalTypeError

fun Unmarshal_map :: "request_body \<Rightarrow> json_error + go_map" where
  "Unmarshal_map (Decoded raw (GMap kvs)) = Inr (Some kvs)"
| "Unmarshal_map (Decoded raw GNil) = Inr None"
| "Unmarshal_map (Decoded raw v) = Inl UnmarshalTypeError"
| "Unmarshal_map _ = Inl SyntaxError"


text \<open>\<^verbatim>\<open>json.NewEncoder(w).Encode\<close> on an \<open>ErrorResponse\<close>; \<open>reason\<close> is \<open>omitempty\<close>.\<close>

definition Encode_ErrorResponse :: "Env \<Rightarrow> ErrorResponse \<Rightarrow> string" where
  \<open>Encode_ErrorResponse E e =
     ''{"error":'' @ json_string E (err_Error e)
     @ (if err_Reason e = '''' then '''' else '',"reason":'' @ json_string E (err_Reason e))
     @ ''}'' @ [CHR 0x0A]\<close>

text \<open>The bytes of a body on the wire.\<close>

fun wire :: "Env \<Rightarrow> body \<Rightarrow> string" where
  "wire E (Encoded e) = Encode_ErrorResponse E e"
| "wire E (Bytes bs) = bs"

definition write_error :: "nat \<Rightarrow> string \<Rightarrow> string \<Rightarrow> Response" where
  "write_error code err reason =
     \<lparr>StatusCode = code, Content_Type = ''application/json'',
      resp_Body = Encoded \<lparr>err_Error = err, err_Reason = reason\<rparr>\<rparr>"

definition handle_health :: Response where
  \<open>handle_health =
     \<lparr>StatusCode = 200, Content_Type = ''application/json'',
      resp_Body = Bytes (''{"status":"healthy"}'' @ [CHR 0x0A])\<rparr>\<close>

text \<open>
  \<^verbatim>\<open>http.Error\<close> sets the content type to plain text and writes the message followed by
  a newline.
\<close>

definition http_Error :: "string \<Rightarrow> nat \<Rightarrow> Response" where
  "http_Error msg code =
     \<lparr>StatusCode = code, Content_Type = ''text/plain; charset=utf-8'',
      resp_Body = Bytes (msg @ [CHR 0x0A])\<rparr>"

definition handle_reload :: "dir_result \<Rightarrow> Gateway \<Rightarrow> Response \<times> Gateway" where
  \<open>handle_reload d g =
     (case Reload d (policyManager g) of
        (Some err, ps) \<Rightarrow>
          (http_Error (''{"error":"ReloadFailed","message":"'' @ err @ ''"}'') 500,
           g\<lparr>policyManager := ps\<rparr>)
      | (None, ps) \<Rightarrow>
          (\<lparr>StatusCode = 200, Content_Type = ''application/json'',
            resp_Body = Bytes (''{"status":"reloaded"}'' @ [CHR 0x0A])\<rparr>,
           g\<lparr>policyManager := ps\<rparr>))\<close>

subsection \<open>watchPolicies\<close>

text \<open>The \<open>fsnotify\<close> operations are bits of a mask.\<close>

type_synonym Op = "32 word"

definition Create :: Op where "Create = 1"
definition Write :: Op where "Write = 2"
definition Remove :: Op where "Remove = 4"
definition Rename :: Op where "Rename = 8"
definition Chmod :: Op where "Chmod = 16"

record Event =
  ev_Name :: string
  ev_Op :: Op

text \<open>What one turn of the \<^verbatim>\<open>select\<close> receives from the two channels of the watcher.\<close>

datatype watcher_msg =
    EventMsg Event
  | EventsClosed
  | ErrorMsg string
  | ErrorsClosed

definition reloads_on :: "Event \<Rightarrow> bool" where
  "reloads_on event =
     (ev_Op event AND Write = Write \<or> ev_Op event AND Create = Create)"

text \<open>
  The loop over the messages received, in the order received: the names of the events
  on which it calls \<open>Reload\<close>. It returns when a channel is closed.
\<close>

fun watchPolicies :: "watcher_msg list \<Rightarrow> string list" where
  "watchPolicies [] = []"
| "watchPolicies (EventsClosed # rest) = []"
| "watchPolicies (ErrorsClosed # rest) = []"
| "watchPolicies (ErrorMsg err # rest) = watchPolicies rest"
| "watchPolicies (EventMsg event # rest) =
     (if reloads_on event then ev_Name event # watchPolicies rest
      else watchPolicies rest)"

subsection \<open>handleToolRequest\<close>


text \<open>
  \<open>forward_to_adapter\<close>: nothing is sent when the request cannot be built; otherwise
  one POST of the body goes out and the answer is what the adapter gives.
\<close>

definition forward_to_adapter ::
  "Env \<Rightarrow> string \<Rightarrow> string \<Rightarrow> (string + (nat \<times> string option)) \<times> effect list" where
  "forward_to_adapter E url body =
     (case NewRequest_error E url of
        Some err \<Rightarrow> (Inl err, [])
      | None \<Rightarrow> (client_Do E url body, [AdapterPOST url body]))"


section \<open>Notions used to state the properties\<close>

text \<open>The audit records among the effects of a handler, and their number.\<close>

fun audits :: "effect list \<Rightarrow> AuditLog list" where
  "audits [] = []"
| "audits (Audit a # es) = a # audits es"
| "audits (e # es) = audits es"

definition audit_count :: "effect list \<Rightarrow> nat" where
  "audit_count es = length (audits es)"



definition adapter_calls :: "effect list \<Rightarrow> nat" where
  "adapter_calls es = length (filter (\<lambda>e. case e of AdapterPOST u b \<Rightarrow> True | _ \<Rightarrow> False) es)"

definition evaluations :: "effect list \<Rightarrow> nat" where
  "evaluations es = length (filter (\<lambda>e. case e of Evaluated a t x p \<Rightarrow> True | _ \<Rightarrow> False) es)"

text \<open>The error kind of a response the handler encoded itself.\<close>

definition error_kind :: "Response \<Rightarrow> string option" where
  "error_kind resp = (case resp_Body resp of Encoded e \<Rightarrow> Some (err_Error e) | Bytes bs \<Rightarrow> None)"

text \<open>
  The decision reached for a request, if the handler gets as far as the policy check:
  the agent is named, and the body has been read and decodes into the parameter map.
\<close>

definition request_decision :: "Gateway \<Rightarrow> Request \<Rightarrow> Decision option" where
  "request_decision g r =
     (if X_Agent_ID r = '''' then None
      else
        (case Unmarshal_map (req_Body r) of
           Inl err \<Rightarrow> None
         | Inr params \<Rightarrow>
             Some (Evaluate (policyManager g) (X_Agent_ID r) (var_tool r) (var_action r) params)))"

text \<open>A permission, an agent rule, a policy that matches (agent, tool, action).\<close>

definition agent_matches :: "Agent \<Rightarrow> string \<Rightarrow> string \<Rightarrow> string \<Rightarrow> bool" where
  "agent_matches agent agentID tool action =
     (Agent_ID agent = agentID \<and> (\<exists>perm \<in> set (Agent_Allow agent). perm_matches perm tool action))"

definition policy_matches :: "Policy \<Rightarrow> string \<Rightarrow> string \<Rightarrow> string \<Rightarrow> bool" where
  "policy_matches policy agentID tool action =
     (\<exists>agent \<in> set (Policy_Agents policy). agent_matches agent agentID tool action)"

text \<open>
  A condition entry with an unknown name, or with a built-in name and a value of the
  wrong type.
\<close>

definition is_slice :: "gval \<Rightarrow> bool" where
  "is_slice v = (case v of GSlice xs \<Rightarrow> True | _ \<Rightarrow> False)"

definition is_string :: "gval \<Rightarrow> bool" where
  "is_string v = (case v of GString s \<Rightarrow> True | _ \<Rightarrow> False)"

definition is_float64 :: "gval \<Rightarrow> bool" where
  "is_float64 v = (case v of GFloat64 f \<Rightarrow> True | _ \<Rightarrow> False)"

definition unknown_condition :: "string \<Rightarrow> bool" where
  "unknown_condition condName =
     (condName \<noteq> ''max_amount'' \<and> condName \<noteq> ''currencies'' \<and> condName \<noteq> ''folder_prefix'')"






text \<open>
  Two visits of one snapshot. Two association lists show the same Go map when their keys
  are distinct and their entries are the same; the order is what one \<^verbatim>\<open>range\<close>
  happened to choose. The agents of a policy and the permissions of an agent are slices
  and keep their order.
\<close>

definition same_map :: "(string \<times> 'a) list \<Rightarrow> (string \<times> 'a) list \<Rightarrow> bool" where
  "same_map xs ys = (distinct (map fst xs) \<and> distinct (map fst ys) \<and> set xs = set ys)"

definition same_perm :: "Permission \<Rightarrow> Permission \<Rightarrow> bool" where
  "same_perm p q =
     (Perm_Tool p = Perm_Tool q \<and> Perm_Actions p = Perm_Actions q
      \<and> same_map (Perm_Conditions p) (Perm_Conditions q))"

definition same_agent :: "Agent \<Rightarrow> Agent \<Rightarrow> bool" where
  "same_agent a b = (Agent_ID a = Agent_ID b \<and> list_all2 same_perm (Agent_Allow a) (Agent_Allow b))"

definition same_policy :: "Policy \<Rightarrow> Policy \<Rightarrow> bool" where
  "same_policy p q =
     (Policy_Version p = Policy_Version q
      \<and> list_all2 same_agent (Policy_Agents p) (Policy_Agents q))"

definition same_snapshot :: "policies \<Rightarrow> policies \<Rightarrow> bool" where
  "same_snapshot ps qs =
     (distinct (map fst ps) \<and> distinct (map fst qs)
      \<and> (\<forall>(n, p) \<in> set ps. \<exists>(m, q) \<in> set qs. m = n \<and> same_policy p q)
      \<and> (\<forall>(m, q) \<in> set qs. \<exists>(n, p) \<in> set ps. n = m \<and> same_policy p q))"

text \<open>At most one loaded file has a permission matching (agent, tool, action).\<close>

definition single_match :: "policies \<Rightarrow> string \<Rightarrow> string \<Rightarrow> string \<Rightarrow> bool" where
  "single_match ps agentID tool action =
     (length (filter (\<lambda>np. policy_matches (snd np) agentID tool action) ps) \<le> 1)"

text \<open>The entries of a conditions map that deny the request.\<close>

definition failing :: "(string \<times> gval) list \<Rightarrow> go_map \<Rightarrow> (string \<times> gval) list" where
  "failing conds params = filter (\<lambda>kv. check_condition (fst kv) (snd kv) params \<noteq> None) conds"

text \<open>No matching permission of the agent has two conditions that deny the request.\<close>

definition single_failure :: "policies \<Rightarrow> string \<Rightarrow> string \<Rightarrow> string \<Rightarrow> go_map \<Rightarrow> bool" where
  "single_failure ps agentID tool action params =
     (\<forall>(n, p) \<in> set ps. \<forall>a \<in> set (Policy_Agents p). Agent_ID a = agentID \<longrightarrow>
        (\<forall>perm \<in> set (Agent_Allow a). perm_matches perm tool action \<longrightarrow>
           length (failing (Perm_Conditions perm) params) \<le> 1))"







section \<open>The policy of the tests and of the end-to-end scenarios\<close>

definition finance_perm :: Permission where
  "finance_perm =
     \<lparr>Perm_Tool = ''payments'', Perm_Actions = [''create'', ''refund''],
      Perm_Conditions = [(''max_amount'', GInt 5000),
                         (''currencies'', GSlice [GString ''USD'', GString ''EUR''])]\<rparr>"

definition hr_perm :: Permission where
  "hr_perm =
     \<lparr>Perm_Tool = ''files'', Perm_Actions = [''read''],
      Perm_Conditions = [(''folder_prefix'', GString ''/hr-docs/'')]\<rparr>"

definition test_policy :: Policy where
  "test_policy =
     \<lparr>Policy_Version = 1,
      Policy_Agents = [\<lparr>Agent_ID = ''finance-agent'', Agent_Allow = [finance_perm]\<rparr>,
                       \<lparr>Agent_ID = ''hr-agent'', Agent_Allow = [hr_perm]\<rparr>]\<rparr>"

text \<open>A second file that lets the same agent read any file, with another version.\<close>

definition open_policy :: Policy where
  "open_policy =
     \<lparr>Policy_Version = 2,
      Policy_Agents = [\<lparr>Agent_ID = ''hr-agent'',
                        Agent_Allow = [\<lparr>Perm_Tool = ''files'', Perm_Actions = [''read''],
                                        Perm_Conditions = []\<rparr>]\<rparr>]\<rparr>"

text \<open>
  The policy of the tests as a second visit may see it: the same conditions map of the
  finance permission, its entries in the other order.
\<close>

definition finance_perm_swapped :: Permission where
  "finance_perm_swapped =
     \<lparr>Perm_Tool = ''payments'', Perm_Actions = [''create'', ''refund''],
      Perm_Conditions = [(''currencies'', GSlice [GString ''USD'', GString ''EUR'']),
                         (''max_amount'', GInt 5000)]\<rparr>"

definition test_policy_swapped :: Policy where
  "test_policy_swapped =
     \<lparr>Policy_Version = 1,
      Policy_Agents = [\<lparr>Agent_ID = ''finance-agent'', Agent_Allow = [finance_perm_swapped]\<rparr>,
                       \<lparr>Agent_ID = ''hr-agent'', Agent_Allow = [hr_perm]\<rparr>]\<rparr>"

text \<open>A file for another agent.\<close>

definition audit_policy :: Policy where
  "audit_policy =
     \<lparr>Policy_Version = 3,
      Policy_Agents = [\<lparr>Agent_ID = ''audit-agent'',
                        Agent_Allow = [\<lparr>Perm_Tool = ''files'', Perm_Actions = [''read''],
                                        Perm_Conditions = []\<rparr>]\<rparr>]\<rparr>"

text \<open>The gateway of the tests, with the two adapters of the demo, and one without adapters.\<close>

definition test_gateway :: Gateway where
  "test_gateway =
     \<lparr>policyManager = [(''test-policy.yaml'', test_policy)],
      adapters = [''payments'' \<mapsto> ''http://localhost:8081'',
                  ''files'' \<mapsto> ''http://localhost:8082'']\<rparr>"


definition hr_request :: "request_body \<Rightarrow> Request" where
  "hr_request b =
     \<lparr>var_tool = ''files'', var_action = ''read'', X_Agent_ID = ''hr-agent'',
      X_Parent_Agent = '''', req_Body = b\<rparr>"

definition legal_body :: request_body where
  \<open>legal_body =
     Decoded ''{"path":"/legal/contract.docx"}'' (GMap [(''path'', GString ''/legal/contract.docx'')])\<close>

definition handbook_body :: request_body where
  \<open>handbook_body =
     Decoded ''{"path":"/hr-docs/employee-handbook.pdf"}''
       (GMap [(''path'', GString ''/hr-docs/employee-handbook.pdf'')])\<close>



section \<open>Properties\<close>

lemma actionAllowed_iff: "actionAllowed as action \<longleftrightarrow> action \<in> set as"
  by (induction as) auto

lemma eval_perms_None_iff:
  "eval_perms version perms tool action params = None
   \<longleftrightarrow> (\<forall>perm \<in> set perms. \<not> perm_matches perm tool action)"
  by (induction perms) (auto simp: perm_matches_def)

lemma eval_perms_first:
  assumes "\<forall>p \<in> set before. \<not> perm_matches p tool action"
    and "perm_matches perm tool action"
  shows "eval_perms version (before @ perm # later) tool action params
         = Some (decide version perm params)"
  using assms by (induction before) (auto simp: perm_matches_def)

lemma eval_agents_None_iff:
  "eval_agents version agents agentID tool action params = None
   \<longleftrightarrow> (\<forall>agent \<in> set agents. \<not> agent_matches agent agentID tool action)"
proof (induction agents)
  case Nil
  then show ?case by simp
next
  case (Cons a agents)
  show ?case
  proof (cases "eval_perms version (Agent_Allow a) tool action params")
    case None
    then have "\<forall>perm \<in> set (Agent_Allow a). \<not> perm_matches perm tool action"
      using eval_perms_None_iff [of version "Agent_Allow a" tool action params] by simp
    with None Cons show ?thesis
      by (auto simp: agent_matches_def)
  next
    case (Some d)
    then have "\<exists>perm \<in> set (Agent_Allow a). perm_matches perm tool action"
      using eval_perms_None_iff [of version "Agent_Allow a" tool action params] by auto
    with Some Cons show ?thesis
      by (auto simp: agent_matches_def)
  qed
qed

lemma eval_agents_first:
  assumes "\<forall>a \<in> set before. \<not> agent_matches a agentID tool action"
    and "Agent_ID agent = agentID"
    and "eval_perms version (Agent_Allow agent) tool action params = Some d"
  shows "eval_agents version (before @ agent # later) agentID tool action params = Some d"
  using assms
proof (induction before)
  case Nil
  then show ?case by simp
next
  case (Cons a before)
  then have "Agent_ID a = agentID \<Longrightarrow> eval_perms version (Agent_Allow a) tool action params = None"
    by (simp add: agent_matches_def eval_perms_None_iff)
  with Cons show ?case by simp
qed

lemma eval_policies_None_iff:
  "eval_policies ps agentID tool action params = None
   \<longleftrightarrow> (\<forall>(name, policy) \<in> set ps. \<not> policy_matches policy agentID tool action)"
proof (induction ps)
  case Nil
  then show ?case by simp
next
  case (Cons np ps)
  obtain n p where np: "np = (n, p)" by (cases np)
  show ?case
  proof (cases "eval_agents (Policy_Version p) (Policy_Agents p) agentID tool action params")
    case None
    then have "\<not> policy_matches p agentID tool action"
      using eval_agents_None_iff [of "Policy_Version p" "Policy_Agents p" agentID tool action params]
      by (simp add: policy_matches_def)
    with None Cons np show ?thesis by auto
  next
    case (Some d)
    then have "policy_matches p agentID tool action"
      using eval_agents_None_iff [of "Policy_Version p" "Policy_Agents p" agentID tool action params]
      by (auto simp: policy_matches_def)
    with Some Cons np show ?thesis by auto
  qed
qed

lemma eval_policies_first:
  assumes "\<forall>(n, p) \<in> set before. \<not> policy_matches p agentID tool action"
    and "eval_agents (Policy_Version policy) (Policy_Agents policy) agentID tool action params = Some d"
  shows "eval_policies (before @ (name, policy) # later) agentID tool action params = Some d"
  using assms
proof (induction before)
  case Nil
  then show ?case by simp
next
  case (Cons np before)
  obtain n p where np: "np = (n, p)" by (cases np)
  with Cons have "eval_agents (Policy_Version p) (Policy_Agents p) agentID tool action params = None"
    by (simp add: policy_matches_def eval_agents_None_iff)
  with Cons np show ?case by simp
qed



lemma cc_max_amount:
  "check_condition ''max_amount'' condVal params =
     (case max_amount_value condVal of
        None \<Rightarrow> None
      | Some maxAmt \<Rightarrow>
          (case index_map params ''amount'' of
             GFloat64 amt \<Rightarrow>
               (if f64_gt amt maxAmt
                then Some (''Amount '' @ Sprintf_2f amt @ '' exceeds max_amount=''
                           @ Sprintf_2f maxAmt)
                else None)
           | _ \<Rightarrow> Some ''Invalid amount parameter''))"
  by (simp add: check_condition_def)

lemma cc_currencies:
  "check_condition ''currencies'' condVal params =
     (case condVal of
        GSlice allowedCurrs \<Rightarrow>
          (case index_map params ''currency'' of
             GString cur \<Rightarrow>
               (if currencyFound allowedCurrs cur then None
                else Some (''Currency '' @ cur @ '' not in allowed list''))
           | _ \<Rightarrow> Some ''Invalid currency parameter'')
      | _ \<Rightarrow> None)"
  by (simp add: check_condition_def)

lemma cc_folder_prefix:
  "check_condition ''folder_prefix'' condVal params =
     (case condVal of
        GString pfx \<Rightarrow>
          (case index_map params ''path'' of
             GString pth \<Rightarrow>
               (if HasPrefix pth pfx then None
                else Some (''Path '' @ pth @ '' does not match required prefix '' @ pfx))
           | _ \<Rightarrow> Some ''Invalid path parameter'')
      | _ \<Rightarrow> None)"
  by (simp add: check_condition_def)

lemma cc_unknown: "unknown_condition condName \<Longrightarrow> check_condition condName condVal params = None"
  by (simp add: check_condition_def unknown_condition_def)

lemma condName_cases:
  obtains "condName = ''max_amount''" | "condName = ''currencies''"
  | "condName = ''folder_prefix''" | "unknown_condition condName"
  unfolding unknown_condition_def by blast

text \<open>The reasons one entry can give.\<close>

lemma cc_max_amount_Some:
  assumes "check_condition ''max_amount'' condVal params = Some reason"
  shows "max_amount_value condVal \<noteq> None
         \<and> ((reason = ''Invalid amount parameter'' \<and> \<not> is_float64 (index_map params ''amount''))
            \<or> (reason \<noteq> '''' \<and> hd reason = CHR ''A''))"
proof (cases "max_amount_value condVal")
  case None
  with assms show ?thesis by (simp add: cc_max_amount)
next
  case (Some maxAmt)
  with assms show ?thesis
    by (cases "index_map params ''amount''")
       (auto simp: cc_max_amount is_float64_def split: if_splits)
qed

lemma cc_currencies_Some:
  assumes "check_condition ''currencies'' condVal params = Some reason"
  shows "is_slice condVal
         \<and> ((reason = ''Invalid currency parameter'' \<and> \<not> is_string (index_map params ''currency''))
            \<or> (reason \<noteq> '''' \<and> hd reason = CHR ''C''))"
proof (cases condVal)
  case (GSlice allowedCurrs)
  with assms show ?thesis
    by (cases "index_map params ''currency''")
       (auto simp: cc_currencies is_slice_def is_string_def split: if_splits)
qed (use assms in \<open>simp_all add: cc_currencies\<close>)

lemma cc_folder_prefix_Some:
  assumes "check_condition ''folder_prefix'' condVal params = Some reason"
  shows "is_string condVal
         \<and> ((reason = ''Invalid path parameter'' \<and> \<not> is_string (index_map params ''path''))
            \<or> (reason \<noteq> '''' \<and> hd reason = CHR ''P''))"
proof (cases condVal)
  case (GString pfx)
  with assms show ?thesis
    by (cases "index_map params ''path''")
       (auto simp: cc_folder_prefix is_string_def split: if_splits)
qed (use assms in \<open>simp_all add: cc_folder_prefix\<close>)

lemma check_condition_nonempty:
  assumes "check_condition condName condVal params = Some reason"
  shows "reason \<noteq> ''''"
proof (cases condName rule: condName_cases)
  case 1
  with assms cc_max_amount_Some [of condVal params reason] show ?thesis by auto
next
  case 2
  with assms cc_currencies_Some [of condVal params reason] show ?thesis by auto
next
  case 3
  with assms cc_folder_prefix_Some [of condVal params reason] show ?thesis by auto
next
  case 4
  with assms show ?thesis by (simp add: cc_unknown)
qed




lemma check_conditions_empty_iff:
  "check_conditions conds params = ''''
   \<longleftrightarrow> (\<forall>(k, v) \<in> set conds. check_condition k v params = None)"
proof (induction conds)
  case Nil
  then show ?case by simp
next
  case (Cons kv conds)
  obtain k v where kv: "kv = (k, v)" by (cases kv)
  show ?case
  proof (cases "check_condition k v params")
    case None
    with Cons kv show ?thesis by simp
  next
    case (Some reason)
    with kv show ?thesis by (simp add: check_condition_nonempty)
  qed
qed












text \<open>
  Claim C7. Where the first permission that matches (agent, tool, action), in the order
  the files, the agents of a file and the permissions of an agent are visited, has a
  condition that gives a reason, \<open>Evaluate\<close> returns the denial with that reason and
  the version of that file, whatever permissions, agents and files come later. Where no
  permission of any file matches, it returns the denial \<open>No policy found for
  agent=<a>, tool=<t>, action=<x>\<close> with version 0.
\<close>

theorem Evaluate_first_match_decides:
  "((\<forall>(n, p) \<in> set files_before. \<not> policy_matches p agentID tool action)
    \<and> Policy_Agents policy = agents_before @ agent # agents_after
    \<and> (\<forall>a \<in> set agents_before. \<not> agent_matches a agentID tool action)
    \<and> Agent_ID agent = agentID
    \<and> Agent_Allow agent = perms_before @ perm # perms_after
    \<and> (\<forall>p \<in> set perms_before. \<not> perm_matches p tool action)
    \<and> perm_matches perm tool action
    \<and> check_conditions (Perm_Conditions perm) params = reason
    \<and> reason \<noteq> ''''
    \<longrightarrow> Evaluate (files_before @ (name, policy) # files_after) agentID tool action params
        = \<lparr>Decision_Allow = False, Decision_Reason = reason,
           Decision_Version = Policy_Version policy\<rparr>)
   \<and> ((\<forall>(n, p) \<in> set ps. \<not> policy_matches p agentID tool action)
    \<longrightarrow> Evaluate ps agentID tool action params
        = \<lparr>Decision_Allow = False,
           Decision_Reason = ''No policy found for agent='' @ agentID @ '', tool='' @ tool
                             @ '', action='' @ action,
           Decision_Version = 0\<rparr>)"
proof (intro conjI impI)
  assume h: "(\<forall>(n, p) \<in> set files_before. \<not> policy_matches p agentID tool action)
    \<and> Policy_Agents policy = agents_before @ agent # agents_after
    \<and> (\<forall>a \<in> set agents_before. \<not> agent_matches a agentID tool action)
    \<and> Agent_ID agent = agentID
    \<and> Agent_Allow agent = perms_before @ perm # perms_after
    \<and> (\<forall>p \<in> set perms_before. \<not> perm_matches p tool action)
    \<and> perm_matches perm tool action
    \<and> check_conditions (Perm_Conditions perm) params = reason
    \<and> reason \<noteq> ''''"
  let ?v = "Policy_Version policy"
  from h have "eval_perms ?v (Agent_Allow agent) tool action params = Some (decide ?v perm params)"
    by (simp add: eval_perms_first)
  with h have "eval_agents ?v (Policy_Agents policy) agentID tool action params
               = Some (decide ?v perm params)"
    by (simp add: eval_agents_first)
  with h have "eval_policies (files_before @ (name, policy) # files_after) agentID tool action params
               = Some (decide ?v perm params)"
    by (intro eval_policies_first) auto
  with h show "Evaluate (files_before @ (name, policy) # files_after) agentID tool action params
        = \<lparr>Decision_Allow = False, Decision_Reason = reason, Decision_Version = ?v\<rparr>"
    by (simp add: Evaluate_def decide_def)
next
  assume "\<forall>(n, p) \<in> set ps. \<not> policy_matches p agentID tool action"
  then have "eval_policies ps agentID tool action params = None"
    by (simp add: eval_policies_None_iff)
  then show "Evaluate ps agentID tool action params
        = \<lparr>Decision_Allow = False,
           Decision_Reason = ''No policy found for agent='' @ agentID @ '', tool='' @ tool
                             @ '', action='' @ action,
           Decision_Version = 0\<rparr>"
    by (simp add: Evaluate_def no_policy_found_def)
qed
subsection \<open>Conversion of an integer to float64\<close>














lemma check_conditions_reason_entry:
  "check_conditions conds params = reason \<Longrightarrow> reason \<noteq> '''' \<Longrightarrow>
   \<exists>(k, v) \<in> set conds. check_condition k v params = Some reason"
proof (induction conds)
  case Nil
  then show ?case by simp
next
  case (Cons kv conds)
  obtain k v where kv: "kv = (k, v)" by (cases kv)
  show ?case
  proof (cases "check_condition k v params")
    case None
    with Cons kv show ?thesis by simp
  next
    case (Some r)
    with Cons kv show ?thesis by simp
  qed
qed



lemma f64_of_int_5000: "f64_of_int 5000 = 0x40B3880000000000"
  by (simp add: f64_of_int_def f64_round_def bits_Len.simps Let_def push_bit_eq_mult)


lemma f64_fields_5000:
  "f64_exp 0x40B3880000000000 = 1035" "f64_frac 0x40B3880000000000 = 0x3880000000000"
  "\<not> f64_sign 0x40B3880000000000"
  by (simp_all add: f64_exp_def f64_frac_def f64_sign_def drop_bit_eq_div bit_iff_odd)

lemma f64_fields_10000:
  "f64_exp 0x40C3880000000000 = 1036" "f64_frac 0x40C3880000000000 = 0x3880000000000"
  "\<not> f64_sign 0x40C3880000000000"
  by (simp_all add: f64_exp_def f64_frac_def f64_sign_def drop_bit_eq_div bit_iff_odd)

lemma Sprintf_2f_5000: "Sprintf_2f 0x40B3880000000000 = ''5000.00''"
  by (simp add: Sprintf_2f_def f64_isNaN_def f64_isInf_def f64_fields_5000 hundredths_def
        f64_mag_def Let_def decimal.simps digit_char_def)

lemma Sprintf_2f_10000: "Sprintf_2f 0x40C3880000000000 = ''10000.00''"
  by (simp add: Sprintf_2f_def f64_isNaN_def f64_isInf_def f64_fields_10000 hundredths_def
        f64_mag_def Let_def decimal.simps digit_char_def)


lemma f64_gt_10000_5000: "f64_gt 0x40C3880000000000 0x40B3880000000000"
  by (simp add: f64_gt_def f64_isNaN_def f64_fields_5000 f64_fields_10000 f64_scaled_def f64_mag_def)


theorem Evaluate_first_match_decides_witness:
  "Policy_Agents test_policy
     = [\<lparr>Agent_ID = ''finance-agent'', Agent_Allow = [finance_perm]\<rparr>]
       @ \<lparr>Agent_ID = ''hr-agent'', Agent_Allow = [hr_perm]\<rparr> # []
   \<and> \<not> agent_matches \<lparr>Agent_ID = ''finance-agent'', Agent_Allow = [finance_perm]\<rparr>
         ''hr-agent'' ''files'' ''read''
   \<and> perm_matches hr_perm ''files'' ''read''
   \<and> check_conditions (Perm_Conditions hr_perm)
        (Some [(''path'', GString ''/legal/contract.docx'')])
     = ''Path /legal/contract.docx does not match required prefix /hr-docs/''
   \<and> Evaluate ([] @ (''test-policy.yaml'', test_policy) # [(''open.yaml'', open_policy)])
        ''hr-agent'' ''files'' ''read'' (Some [(''path'', GString ''/legal/contract.docx'')])
     = \<lparr>Decision_Allow = False,
        Decision_Reason = ''Path /legal/contract.docx does not match required prefix /hr-docs/'',
        Decision_Version = 1\<rparr>
   \<and> \<not> policy_matches test_policy ''hr-agent'' ''files'' ''delete''
   \<and> Evaluate [(''test-policy.yaml'', test_policy)] ''hr-agent'' ''files'' ''delete''
        (Some [(''path'', GString ''/legal/contract.docx'')])
     = \<lparr>Decision_Allow = False,
        Decision_Reason = ''No policy found for agent=hr-agent, tool=files, action=delete'',
        Decision_Version = 0\<rparr>"
proof -
  let ?params = "Some [(''path'', GString ''/legal/contract.docx'')]"
  let ?fin = "\<lparr>Agent_ID = ''finance-agent'', Agent_Allow = [finance_perm]\<rparr>"
  let ?hr = "\<lparr>Agent_ID = ''hr-agent'', Agent_Allow = [hr_perm]\<rparr>"
  let ?reason = "''Path /legal/contract.docx does not match required prefix /hr-docs/''"
  have h1: "\<forall>(n, p) \<in> set []. \<not> policy_matches p ''hr-agent'' ''files'' ''read''"
    by simp
  have h2: "Policy_Agents test_policy = [?fin] @ ?hr # []"
    by (simp add: test_policy_def)
  have h3: "\<not> agent_matches ?fin ''hr-agent'' ''files'' ''read''"
    by (simp add: agent_matches_def)
  have h4: "perm_matches hr_perm ''files'' ''read''"
    by (simp add: perm_matches_def hr_perm_def)
  have h5: "check_conditions (Perm_Conditions hr_perm) ?params = ?reason"
    by (simp add: hr_perm_def check_condition_def index_map_def HasPrefix_def)
  have h6: "\<not> policy_matches test_policy ''hr-agent'' ''files'' ''delete''"
    by (simp add: policy_matches_def agent_matches_def perm_matches_def test_policy_def
          hr_perm_def finance_perm_def)
  have v: "Policy_Version test_policy = 1"
    by (simp add: test_policy_def)
  from Evaluate_first_match_decides [where files_before = "[]" and agentID = "''hr-agent''"
      and tool = "''files''" and action = "''read''" and policy = test_policy
      and agents_before = "[?fin]" and agent = ?hr and agents_after = "[]"
      and perms_before = "[]" and perm = hr_perm and perms_after = "[]"
      and params = ?params and reason = ?reason and name = "''test-policy.yaml''"
      and files_after = "[(''open.yaml'', open_policy)]"]
    h1 h2 h3 h4 h5 v
  have c1: "Evaluate ([] @ (''test-policy.yaml'', test_policy) # [(''open.yaml'', open_policy)])
        ''hr-agent'' ''files'' ''read'' ?params
     = \<lparr>Decision_Allow = False, Decision_Reason = ?reason, Decision_Version = 1\<rparr>"
    by simp
  from Evaluate_first_match_decides [where ps = "[(''test-policy.yaml'', test_policy)]"
      and agentID = "''hr-agent''" and tool = "''files''" and action = "''delete''"
      and params = ?params] h6
  have c2: "Evaluate [(''test-policy.yaml'', test_policy)] ''hr-agent'' ''files'' ''delete'' ?params
     = \<lparr>Decision_Allow = False,
        Decision_Reason = ''No policy found for agent=hr-agent, tool=files, action=delete'',
        Decision_Version = 0\<rparr>"
    by simp
  from h2 h3 h4 h5 c1 h6 c2 show ?thesis by (intro conjI)
qed


lemma audits_append [simp]: "audits (es @ fs) = audits es @ audits fs"
  by (induction es rule: audits.induct) simp_all

lemma audit_count_simps [simp]:
  "audit_count [] = 0"
  "audit_count (Audit a # es) = Suc (audit_count es)"
  "audit_count (Evaluated ag t x p # es) = audit_count es"
  "audit_count (AdapterPOST u b # es) = audit_count es"
  "audit_count (es @ fs) = audit_count es + audit_count fs"
  by (simp_all add: audit_count_def)

lemma adapter_calls_simps [simp]:
  "adapter_calls [] = 0"
  "adapter_calls (Audit a # es) = adapter_calls es"
  "adapter_calls (Evaluated ag t x p # es) = adapter_calls es"
  "adapter_calls (AdapterPOST u b # es) = Suc (adapter_calls es)"
  "adapter_calls (es @ fs) = adapter_calls es + adapter_calls fs"
  by (simp_all add: adapter_calls_def)

lemma evaluations_simps [simp]:
  "evaluations [] = 0"
  "evaluations (Audit a # es) = evaluations es"
  "evaluations (Evaluated ag t x p # es) = Suc (evaluations es)"
  "evaluations (AdapterPOST u b # es) = evaluations es"
  "evaluations (es @ fs) = evaluations es + evaluations fs"
  by (simp_all add: evaluations_def)

lemma LogDecision_counts [simp]:
  "audit_count (LogDecision E a t x r h p al v l) = 1"
  "adapter_calls (LogDecision E a t x r h p al v l) = 0"
  "evaluations (LogDecision E a t x r h p al v l) = 0"
  by (simp_all add: LogDecision_def Let_def)

lemma forward_audits [simp]:
  "audits (snd (forward_to_adapter E url b)) = []"
  "evaluations (snd (forward_to_adapter E url b)) = 0"
  by (simp_all add: forward_to_adapter_def split: option.splits)


lemma Unmarshal_ReadError [simp]: "Unmarshal_map ReadError = Inl SyntaxError"
  by simp








lemma request_decision_Some:
  "X_Agent_ID r \<noteq> '''' \<Longrightarrow> Unmarshal_map (req_Body r) = Inr params \<Longrightarrow>
   request_decision g r
   = Some (Evaluate (policyManager g) (X_Agent_ID r) (var_tool r) (var_action r) params)"
  by (simp add: request_decision_def)









lemma hr_request_simps [simp]:
  "X_Agent_ID (hr_request b) = ''hr-agent''" "var_tool (hr_request b) = ''files''"
  "var_action (hr_request b) = ''read''" "X_Parent_Agent (hr_request b) = ''''"
  "req_Body (hr_request b) = b"
  by (simp_all add: hr_request_def)

lemma example_bodies [simp]:
  "Unmarshal_map legal_body = Inr (Some [(''path'', GString ''/legal/contract.docx'')])"
  "Unmarshal_map handbook_body
   = Inr (Some [(''path'', GString ''/hr-docs/employee-handbook.pdf'')])"
  by (simp_all add: legal_body_def handbook_body_def)


























text \<open>
  Claim C6, on the code. When the reload fails, \<open>handle_reload\<close> answers through
  \<^verbatim>\<open>http.Error\<close>: the status is 500, the content type is plain text and not
  \<open>application/json\<close>, and the body is a line with the keys \<open>error\<close> and
  \<open>message\<close>, with the text of the error pasted in unescaped; it is not an
  \<open>ErrorResponse\<close> given to the JSON encoder, as every error answer of
  \<open>handleToolRequest\<close> is.
\<close>

theorem reload_failure_is_plain_text:
  \<open>fst (handle_reload (Inl err) g)
     = \<lparr>StatusCode = 500, Content_Type = ''text/plain; charset=utf-8'',
        resp_Body = Bytes (''{"error":"ReloadFailed","message":"failed to read policies directory: ''
                           @ err @ ''"}'' @ [CHR 0x0A])\<rparr>
   \<and> Content_Type (fst (handle_reload (Inl err) g)) \<noteq> ''application/json''
   \<and> error_kind (fst (handle_reload (Inl err) g)) = None
   \<and> Content_Type (write_error code kind reason) = ''application/json''
   \<and> error_kind (write_error code kind reason) = Some kind\<close>
  by (simp add: handle_reload_def Reload_def load_policies_def http_Error_def error_kind_def
        write_error_def)

theorem reload_failure_is_plain_text_witness:
  \<open>fst (handle_reload (Inl ''open ./policies: no such file or directory'') test_gateway)
     = \<lparr>StatusCode = 500, Content_Type = ''text/plain; charset=utf-8'',
        resp_Body = Bytes (''{"error":"ReloadFailed","message":"failed to read policies directory: open ./policies: no such file or directory"}''
                           @ [CHR 0x0A])\<rparr>
   \<and> Content_Type (fst (handle_reload (Inl ''open ./policies: no such file or directory'')
                          test_gateway)) \<noteq> ''application/json''\<close>
  using reload_failure_is_plain_text
    [of "''open ./policies: no such file or directory''" test_gateway]
  by simp

text \<open>
  An event that is only a remove, and one that is only a rename, of a policy file: the
  loop calls \<open>Reload\<close> for neither.
\<close>

theorem watch_remove_rename_counterexample:
  "watchPolicies
     [EventMsg \<lparr>ev_Name = ''policies/stale.yaml'', ev_Op = Remove\<rparr>,
      EventMsg \<lparr>ev_Name = ''policies/old.yaml'', ev_Op = Rename\<rparr>,
      EventsClosed]
   = []"
  by (simp add: reloads_on_def Remove_def Rename_def Write_def Create_def)

lemma and_exp_eq_exp:
  assumes "n < 32"
  shows "(w :: 32 word) AND 2 ^ n = 2 ^ n \<longleftrightarrow> bit w n"
proof
  assume "w AND 2 ^ n = 2 ^ n"
  then have "bit (w AND 2 ^ n) n = bit (2 ^ n :: 32 word) n" by simp
  with assms show "bit w n" by (simp add: bit_and_iff bit_exp_iff)
next
  assume b: "bit w n"
  show "w AND 2 ^ n = 2 ^ n"
    by (rule bit_word_eqI) (use b in \<open>auto simp: bit_and_iff bit_exp_iff\<close>)
qed

lemma reloads_on_bits: "reloads_on event \<longleftrightarrow> bit (ev_Op event) 1 \<or> bit (ev_Op event) 0"
  using and_exp_eq_exp [of 1 "ev_Op event"] and_exp_eq_exp [of 0 "ev_Op event"]
  by (simp add: reloads_on_def Write_def Create_def)

lemma no_reload_without_bits:
  assumes "ev_Op event AND (Write OR Create) = 0"
  shows "\<not> reloads_on event"
proof -
  from assms have z: "ev_Op event AND 3 = 0"
    by (simp add: Write_def Create_def)
  have "ev_Op event AND 2 = (ev_Op event AND 3) AND 2"
    by (simp add: and.assoc)
  with z have w: "ev_Op event AND 2 = 0" by simp
  have "ev_Op event AND 1 = (ev_Op event AND 3) AND 1"
    by (simp add: and.assoc)
  with z have c: "ev_Op event AND 1 = 0" by simp
  from w c show ?thesis by (simp add: reloads_on_def Write_def Create_def)
qed

text \<open>
  Claim C3, as the code has it. The loop calls \<open>Reload\<close> on an event exactly when its
  operation has the write bit or the create bit; an event whose operation has neither,
  as one that is only a remove, a rename or both, is passed over.
\<close>

theorem watch_reloads_on_write_or_create:
  "watchPolicies (EventMsg event # rest)
     = (if bit (ev_Op event) 1 \<or> bit (ev_Op event) 0
        then ev_Name event # watchPolicies rest else watchPolicies rest)
   \<and> Write = 2 ^ 1 \<and> Create = 2 ^ 0
   \<and> (ev_Op event AND (Write OR Create) = 0 \<longrightarrow>
        watchPolicies (EventMsg event # rest) = watchPolicies rest)
   \<and> Remove AND (Write OR Create) = 0
   \<and> Rename AND (Write OR Create) = 0
   \<and> (Remove OR Rename) AND (Write OR Create) = 0"
  apply (intro conjI impI)
  subgoal by (simp add: reloads_on_bits)
  subgoal by (simp add: Write_def)
  subgoal by (simp add: Create_def)
  subgoal by (simp add: no_reload_without_bits)
  subgoal by (simp add: Remove_def Write_def Create_def)
  subgoal by (simp add: Rename_def Write_def Create_def)
  subgoal by (simp add: Remove_def Rename_def Write_def Create_def)
  done

theorem watch_reloads_on_write_or_create_witness:
  "watchPolicies
     [EventMsg \<lparr>ev_Name = ''policies/a.yaml'', ev_Op = Write\<rparr>,
      EventMsg \<lparr>ev_Name = ''policies/b.yaml'', ev_Op = Remove\<rparr>,
      EventMsg \<lparr>ev_Name = ''policies/c.yaml'', ev_Op = Create OR Chmod\<rparr>]
   = [''policies/a.yaml'', ''policies/c.yaml'']
   \<and> ev_Op \<lparr>ev_Name = ''policies/b.yaml'', ev_Op = Remove\<rparr> AND (Write OR Create) = 0"
proof -
  let ?a = "\<lparr>ev_Name = ''policies/a.yaml'', ev_Op = Write\<rparr>"
  let ?b = "\<lparr>ev_Name = ''policies/b.yaml'', ev_Op = Remove\<rparr>"
  let ?c = "\<lparr>ev_Name = ''policies/c.yaml'', ev_Op = Create OR Chmod\<rparr>"
  have hb: "ev_Op ?b AND (Write OR Create) = 0"
    by (simp add: Remove_def Write_def Create_def)
  have ba: "bit (ev_Op ?a) 1"
    by (simp add: Write_def)
  have bc: "bit (ev_Op ?c) 0"
    by (simp add: Create_def Chmod_def bit_or_iff)
  from watch_reloads_on_write_or_create [of ?a "[EventMsg ?b, EventMsg ?c]"] ba
  have s1: "watchPolicies [EventMsg ?a, EventMsg ?b, EventMsg ?c]
            = ''policies/a.yaml'' # watchPolicies [EventMsg ?b, EventMsg ?c]"
    by (simp add: reloads_on_def Write_def)
  from watch_reloads_on_write_or_create [of ?b "[EventMsg ?c]"] hb
  have s2: "watchPolicies [EventMsg ?b, EventMsg ?c] = watchPolicies [EventMsg ?c]"
    by (simp add: reloads_on_def Write_def Create_def Remove_def)
  from watch_reloads_on_write_or_create [of ?c "[]"] bc
  have s3: "watchPolicies [EventMsg ?c] = [''policies/c.yaml'']"
    by (simp add: reloads_on_def Write_def Create_def Chmod_def)
  from s1 s2 s3 hb show ?thesis by simp
qed

lemma same_perm_matches:
  "same_perm x y \<Longrightarrow> perm_matches y tool action = perm_matches x tool action"
  by (simp add: same_perm_def perm_matches_def)

lemma eval_perms_same:
  assumes "list_all2 same_perm xs ys"
    and "\<And>x y. x \<in> set xs \<Longrightarrow> same_perm x y \<Longrightarrow> perm_matches x tool action \<Longrightarrow>
           g (decide v x params) = g (decide v y params)"
  shows "map_option g (eval_perms v xs tool action params)
         = map_option g (eval_perms v ys tool action params)"
  using assms
proof (induction xs ys rule: list_all2_induct)
  case Nil
  then show ?case by simp
next
  case (Cons x xs y ys)
  from Cons.hyps(1) have m: "perm_matches y tool action = perm_matches x tool action"
    by (rule same_perm_matches)
  show ?case
  proof (cases "perm_matches x tool action")
    case True
    with m have "perm_matches y tool action" by simp
    with True Cons.prems [of x y] Cons.hyps(1) show ?thesis
      by (simp add: perm_matches_def)
  next
    case False
    with m have ny: "\<not> perm_matches y tool action" by simp
    have "map_option g (eval_perms v xs tool action params)
          = map_option g (eval_perms v ys tool action params)"
      by (rule Cons.IH) (use Cons.prems in auto)
    with False ny show ?thesis
      by (auto simp: perm_matches_def)
  qed
qed

lemma eval_agents_same:
  assumes "list_all2 same_agent as bs"
    and "\<And>a x y. a \<in> set as \<Longrightarrow> Agent_ID a = agentID \<Longrightarrow> x \<in> set (Agent_Allow a) \<Longrightarrow>
           same_perm x y \<Longrightarrow> perm_matches x tool action \<Longrightarrow>
           g (decide v x params) = g (decide v y params)"
  shows "map_option g (eval_agents v as agentID tool action params)
         = map_option g (eval_agents v bs agentID tool action params)"
  using assms
proof (induction as bs rule: list_all2_induct)
  case Nil
  then show ?case by simp
next
  case (Cons a as b bs)
  from Cons.hyps(1) have id: "Agent_ID b = Agent_ID a"
    and perms: "list_all2 same_perm (Agent_Allow a) (Agent_Allow b)"
    by (simp_all add: same_agent_def)
  have rest: "map_option g (eval_agents v as agentID tool action params)
        = map_option g (eval_agents v bs agentID tool action params)"
    by (rule Cons.IH) (use Cons.prems in auto)
  show ?case
  proof (cases "Agent_ID a = agentID")
    case False
    with id rest show ?thesis by simp
  next
    case True
    have "map_option g (eval_perms v (Agent_Allow a) tool action params)
          = map_option g (eval_perms v (Agent_Allow b) tool action params)"
      by (rule eval_perms_same [OF perms]) (use Cons.prems True in auto)
    with True id rest show ?thesis
      by (cases "eval_perms v (Agent_Allow a) tool action params";
          cases "eval_perms v (Agent_Allow b) tool action params") simp_all
  qed
qed

lemma eval_policy_same:
  assumes "same_policy p q"
    and "\<And>a x y. a \<in> set (Policy_Agents p) \<Longrightarrow> Agent_ID a = agentID \<Longrightarrow>
           x \<in> set (Agent_Allow a) \<Longrightarrow> same_perm x y \<Longrightarrow> perm_matches x tool action \<Longrightarrow>
           g (decide (Policy_Version p) x params) = g (decide (Policy_Version p) y params)"
  shows "map_option g (eval_agents (Policy_Version p) (Policy_Agents p) agentID tool action params)
         = map_option g (eval_agents (Policy_Version q) (Policy_Agents q) agentID tool action params)"
proof -
  from assms(1) have v: "Policy_Version q = Policy_Version p"
    and ags: "list_all2 same_agent (Policy_Agents p) (Policy_Agents q)"
    by (simp_all add: same_policy_def)
  from eval_agents_same [OF ags, of agentID tool action g "Policy_Version p" params] assms(2) v
  show ?thesis by simp
qed

lemma same_policy_matches:
  assumes "same_policy p q"
  shows "policy_matches q agentID tool action = policy_matches p agentID tool action"
proof -
  have "map_option (\<lambda>d. ()) (eval_agents (Policy_Version p) (Policy_Agents p) agentID tool action None)
        = map_option (\<lambda>d. ()) (eval_agents (Policy_Version q) (Policy_Agents q) agentID tool action None)"
    by (rule eval_policy_same [OF assms]) simp
  then have "eval_agents (Policy_Version p) (Policy_Agents p) agentID tool action None = None
        \<longleftrightarrow> eval_agents (Policy_Version q) (Policy_Agents q) agentID tool action None = None"
    by (metis map_option_is_None)
  then show ?thesis
    unfolding eval_agents_None_iff policy_matches_def by blast
qed

text \<open>\<open>eval_policies\<close> is decided by the first file that matches.\<close>

lemma eval_policies_filter:
  "eval_policies ps agentID tool action params
   = (case filter (\<lambda>np. policy_matches (snd np) agentID tool action) ps of
        [] \<Rightarrow> None
      | np # _ \<Rightarrow> eval_agents (Policy_Version (snd np)) (Policy_Agents (snd np))
                    agentID tool action params)"
proof (induction ps)
  case Nil
  then show ?case by simp
next
  case (Cons np ps)
  obtain n p where np: "np = (n, p)" by (cases np)
  show ?case
  proof (cases "policy_matches p agentID tool action")
    case True
    then have "eval_agents (Policy_Version p) (Policy_Agents p) agentID tool action params \<noteq> None"
      by (simp add: eval_agents_None_iff policy_matches_def)
    with True np show ?thesis by auto
  next
    case False
    then have "eval_agents (Policy_Version p) (Policy_Agents p) agentID tool action params = None"
      by (simp add: eval_agents_None_iff policy_matches_def)
    with False np Cons show ?thesis by simp
  qed
qed

lemma distinct_all_equal:
  "distinct xs \<Longrightarrow> \<forall>x \<in> set xs. x = n \<Longrightarrow> length xs \<le> 1"
  by (cases xs rule: list.exhaust [case_names Nil Cons]; cases "tl xs") auto

lemma filter_le1_unique:
  assumes "length (filter P xs) \<le> 1" and "x \<in> set xs" and "P x" and "y \<in> set xs" and "P y"
  shows "x = y"
proof -
  from assms have "x \<in> set (filter P xs)" "y \<in> set (filter P xs)" by simp_all
  with assms(1) show ?thesis
    by (cases "filter P xs"; cases "tl (filter P xs)") auto
qed

lemma check_conditions_same_map_empty:
  assumes "same_map c d"
  shows "check_conditions d params = '''' \<longleftrightarrow> check_conditions c params = ''''"
  using assms by (simp add: check_conditions_empty_iff same_map_def)

lemma check_conditions_same_map:
  assumes "same_map c d" and "length (failing c params) \<le> 1"
  shows "check_conditions d params = check_conditions c params"
proof (cases "check_conditions c params = ''''")
  case True
  with check_conditions_same_map_empty [OF assms(1), of params] show ?thesis by simp
next
  case False
  with check_conditions_same_map_empty [OF assms(1), of params]
  have nd: "check_conditions d params \<noteq> ''''" by simp
  from check_conditions_reason_entry [OF refl False]
  obtain k v where kv: "(k, v) \<in> set c"
    and r: "check_condition k v params = Some (check_conditions c params)"
    by auto
  from check_conditions_reason_entry [OF refl nd]
  obtain k' v' where kv': "(k', v') \<in> set d"
    and r': "check_condition k' v' params = Some (check_conditions d params)"
    by auto
  from kv' assms(1) have kv'c: "(k', v') \<in> set c" by (simp add: same_map_def)
  let ?P = "\<lambda>kv. check_condition (fst kv) (snd kv) params \<noteq> None"
  from assms(2) have "length (filter ?P c) \<le> 1" by (simp add: failing_def)
  from filter_le1_unique [OF this kv _ kv'c] r r' have "(k, v) = (k', v')" by simp
  with r r' show ?thesis by simp
qed

lemma decide_same_perm_allow:
  assumes "same_perm x y"
  shows "(Decision_Allow (decide v y params), Decision_Version (decide v y params))
         = (Decision_Allow (decide v x params), Decision_Version (decide v x params))"
proof -
  from assms have "same_map (Perm_Conditions x) (Perm_Conditions y)"
    by (simp add: same_perm_def)
  from check_conditions_same_map_empty [OF this, of params] show ?thesis
    by (simp add: decide_def Let_def)
qed

lemma decide_same_perm:
  assumes "same_perm x y" and "length (failing (Perm_Conditions x) params) \<le> 1"
  shows "decide v y params = decide v x params"
proof -
  from assms have "same_map (Perm_Conditions x) (Perm_Conditions y)"
    by (simp add: same_perm_def)
  from check_conditions_same_map [OF this assms(2)] show ?thesis
    by (simp add: decide_def Let_def)
qed

lemma Evaluate_same_snapshot:
  assumes ss: "same_snapshot ps qs" and sm: "single_match ps agentID tool action"
    and rel: "\<And>n p q. (n, p) \<in> set ps \<Longrightarrow> (n, q) \<in> set qs \<Longrightarrow> same_policy p q \<Longrightarrow>
       map_option g (eval_agents (Policy_Version p) (Policy_Agents p) agentID tool action params)
       = map_option g (eval_agents (Policy_Version q) (Policy_Agents q) agentID tool action params)"
  shows "g (Evaluate qs agentID tool action params) = g (Evaluate ps agentID tool action params)"
proof -
  let ?P = "\<lambda>np. policy_matches (snd np) agentID tool action"
  from ss have fwd: "\<And>n p. (n, p) \<in> set ps \<Longrightarrow> \<exists>q. (n, q) \<in> set qs \<and> same_policy p q"
    and bwd: "\<And>m q. (m, q) \<in> set qs \<Longrightarrow> \<exists>p. (m, p) \<in> set ps \<and> same_policy p q"
    by (auto simp: same_snapshot_def)
  show ?thesis
  proof (cases "filter ?P ps")
    case Nil
    then have none: "\<And>n p. (n, p) \<in> set ps \<Longrightarrow> \<not> policy_matches p agentID tool action"
      by (auto simp: filter_empty_conv)
    have "filter ?P qs = []"
    proof (rule ccontr)
      assume "filter ?P qs \<noteq> []"
      then obtain m q where mq: "(m, q) \<in> set qs" and mt: "policy_matches q agentID tool action"
        by (auto simp: filter_empty_conv)
      from bwd [OF mq] obtain p where p: "(m, p) \<in> set ps" "same_policy p q" by blast
      from same_policy_matches [OF p(2)] mt have "policy_matches p agentID tool action" by simp
      with none [OF p(1)] show False by simp
    qed
    with Nil show ?thesis
      by (simp add: Evaluate_def eval_policies_filter)
  next
    case (Cons np rest)
    obtain n p where np: "np = (n, p)" by (cases np)
    from Cons np have inp: "(n, p) \<in> set ps" and mp: "policy_matches p agentID tool action"
      using filter_eq_ConsD [of ?P ps np rest] by auto
    from sm have le1: "length (filter ?P ps) \<le> 1" by (simp add: single_match_def)
    from fwd [OF inp] obtain q where q: "(n, q) \<in> set qs" "same_policy p q" by blast
    from same_policy_matches [OF q(2)] mp have "policy_matches q agentID tool action" by simp
    with q(1) have "\<exists>x \<in> set qs. ?P x" by (intro bexI [of _ "(n, q)"]) simp_all
    then have "filter ?P qs \<noteq> []" by (simp add: filter_empty_conv)
    then obtain mq rest' where fq: "filter ?P qs = mq # rest'" by (cases "filter ?P qs") auto
    obtain m q' where mq: "mq = (m, q')" by (cases mq)
    from fq mq have inq: "(m, q') \<in> set qs" and mq': "policy_matches q' agentID tool action"
      using filter_eq_ConsD [of ?P qs mq rest'] by auto
    from bwd [OF inq] obtain p' where p': "(m, p') \<in> set ps" "same_policy p' q'" by blast
    from same_policy_matches [OF p'(2)] mq' have mp': "policy_matches p' agentID tool action"
      by simp
    from filter_le1_unique [OF le1 inp _ p'(1)] mp mp' have same: "n = m" "p = p'" by simp_all
    with p' inq have spq: "same_policy p q'" and inq': "(n, q') \<in> set qs" by simp_all
    from rel [OF inp inq' spq]
    have e: "map_option g (eval_agents (Policy_Version p) (Policy_Agents p) agentID tool action params)
       = map_option g (eval_agents (Policy_Version q') (Policy_Agents q') agentID tool action params)" .
    from mp have sp: "eval_agents (Policy_Version p) (Policy_Agents p) agentID tool action params \<noteq> None"
      by (simp add: eval_agents_None_iff policy_matches_def)
    from mq' have sq: "eval_agents (Policy_Version q') (Policy_Agents q') agentID tool action params \<noteq> None"
      by (simp add: eval_agents_None_iff policy_matches_def)
    from e sp sq Cons np fq mq show ?thesis
      by (auto simp: Evaluate_def eval_policies_filter)
  qed
qed

lemma Evaluate_same_snapshot_allow:
  assumes "same_snapshot ps qs" and "single_match ps agentID tool action"
  shows "Decision_Allow (Evaluate qs agentID tool action params)
           = Decision_Allow (Evaluate ps agentID tool action params)
         \<and> Decision_Version (Evaluate qs agentID tool action params)
           = Decision_Version (Evaluate ps agentID tool action params)"
proof -
  let ?g = "\<lambda>d. (Decision_Allow d, Decision_Version d)"
  have "?g (Evaluate qs agentID tool action params) = ?g (Evaluate ps agentID tool action params)"
  proof (rule Evaluate_same_snapshot [OF assms])
    fix n p q
    assume "same_policy p q"
    then show "map_option ?g (eval_agents (Policy_Version p) (Policy_Agents p) agentID tool action params)
       = map_option ?g (eval_agents (Policy_Version q) (Policy_Agents q) agentID tool action params)"
      by (rule eval_policy_same) (simp add: decide_same_perm_allow)
  qed
  then show ?thesis by simp
qed

lemma Evaluate_same_snapshot_eq:
  assumes "same_snapshot ps qs" and "single_match ps agentID tool action"
    and sf: "single_failure ps agentID tool action params"
  shows "Evaluate qs agentID tool action params = Evaluate ps agentID tool action params"
proof -
  have "id (Evaluate qs agentID tool action params) = id (Evaluate ps agentID tool action params)"
  proof (rule Evaluate_same_snapshot [OF assms(1,2)])
    fix n p q
    assume inp: "(n, p) \<in> set ps" and sp: "same_policy p q"
    show "map_option id (eval_agents (Policy_Version p) (Policy_Agents p) agentID tool action params)
       = map_option id (eval_agents (Policy_Version q) (Policy_Agents q) agentID tool action params)"
    proof (rule eval_policy_same [OF sp])
      fix a x y
      assume "a \<in> set (Policy_Agents p)" "Agent_ID a = agentID" "x \<in> set (Agent_Allow a)"
        "same_perm x y" "perm_matches x tool action"
      with sf inp have "length (failing (Perm_Conditions x) params) \<le> 1"
        by (auto simp: single_failure_def)
      from decide_same_perm [OF \<open>same_perm x y\<close> this]
      show "id (decide (Policy_Version p) x params) = id (decide (Policy_Version p) y params)"
        by simp
    qed
  qed
  then show ?thesis by simp
qed

text \<open>
  Claim C1, as the code has it. Two calls over one snapshot visit the files, and the
  conditions of each permission, in orders of Go's choosing. Where at most one loaded
  file has a permission matching (agent, tool, action), both calls return the same allow
  flag and the same version; where moreover no matching permission of the agent has two
  conditions that deny the request, both return the same Decision.
\<close>

theorem Evaluate_deterministic_single_match:
  "same_snapshot ps qs \<and> single_match ps agentID tool action \<longrightarrow>
     Decision_Allow (Evaluate qs agentID tool action params)
       = Decision_Allow (Evaluate ps agentID tool action params)
     \<and> Decision_Version (Evaluate qs agentID tool action params)
       = Decision_Version (Evaluate ps agentID tool action params)
     \<and> (single_failure ps agentID tool action params \<longrightarrow>
          Evaluate qs agentID tool action params = Evaluate ps agentID tool action params)"
  apply (intro conjI impI)
  subgoal by (simp add: Evaluate_same_snapshot_allow)
  subgoal by (simp add: Evaluate_same_snapshot_allow)
  subgoal by (simp add: Evaluate_same_snapshot_eq)
  done

lemma same_policy_test: "same_policy test_policy test_policy"
  by (simp add: same_policy_def same_agent_def same_perm_def same_map_def test_policy_def
        finance_perm_def hr_perm_def)

lemma same_policy_open: "same_policy open_policy open_policy"
  by (simp add: same_policy_def same_agent_def same_perm_def same_map_def open_policy_def)

lemma same_policy_audit: "same_policy audit_policy audit_policy"
  by (simp add: same_policy_def same_agent_def same_perm_def same_map_def audit_policy_def)

lemma same_policy_swapped: "same_policy test_policy test_policy_swapped"
  by (auto simp: same_policy_def same_agent_def same_perm_def same_map_def test_policy_def
        test_policy_swapped_def finance_perm_def finance_perm_swapped_def hr_perm_def)

lemma check_max_amount_10000:
  "check_condition ''max_amount'' (GInt 5000)
     (Some [(''amount'', GFloat64 0x40C3880000000000), (''currency'', GString cur)])
   = Some ''Amount 10000.00 exceeds max_amount=5000.00''"
  by (simp add: cc_max_amount f64_of_int_5000 index_map_def f64_gt_10000_5000
        Sprintf_2f_5000 Sprintf_2f_10000)

lemma check_currencies:
  "check_condition ''currencies'' (GSlice [GString ''USD'', GString ''EUR''])
     (Some [(''amount'', GFloat64 a), (''currency'', GString ''USD'')]) = None"
  "check_condition ''currencies'' (GSlice [GString ''USD'', GString ''EUR''])
     (Some [(''amount'', GFloat64 a), (''currency'', GString ''GBP'')])
   = Some ''Currency GBP not in allowed list''"
  by (simp_all add: cc_currencies index_map_def)

text \<open>
  Two visits of one snapshot of two files that both let \<open>hr-agent\<close> read files, one
  under a folder prefix and one freely: the visit that reaches the open file first
  allows what the other denies. And two visits of one permission whose two conditions
  both deny: the reasons differ.
\<close>

theorem Evaluate_order_counterexample:
  "same_snapshot [(''test-policy.yaml'', test_policy), (''open.yaml'', open_policy)]
                 [(''open.yaml'', open_policy), (''test-policy.yaml'', test_policy)]
   \<and> Evaluate [(''test-policy.yaml'', test_policy), (''open.yaml'', open_policy)]
        ''hr-agent'' ''files'' ''read'' (Some [(''path'', GString ''/legal/contract.docx'')])
     = \<lparr>Decision_Allow = False,
        Decision_Reason = ''Path /legal/contract.docx does not match required prefix /hr-docs/'',
        Decision_Version = 1\<rparr>
   \<and> Evaluate [(''open.yaml'', open_policy), (''test-policy.yaml'', test_policy)]
        ''hr-agent'' ''files'' ''read'' (Some [(''path'', GString ''/legal/contract.docx'')])
     = \<lparr>Decision_Allow = True, Decision_Reason = ''Policy allows this action'',
        Decision_Version = 2\<rparr>
   \<and> same_snapshot [(''test-policy.yaml'', test_policy)]
                   [(''test-policy.yaml'', test_policy_swapped)]
   \<and> Decision_Reason (Evaluate [(''test-policy.yaml'', test_policy)]
        ''finance-agent'' ''payments'' ''create''
        (Some [(''amount'', GFloat64 0x40C3880000000000), (''currency'', GString ''GBP'')]))
     = ''Amount 10000.00 exceeds max_amount=5000.00''
   \<and> Decision_Reason (Evaluate [(''test-policy.yaml'', test_policy_swapped)]
        ''finance-agent'' ''payments'' ''create''
        (Some [(''amount'', GFloat64 0x40C3880000000000), (''currency'', GString ''GBP'')]))
     = ''Currency GBP not in allowed list''"
proof (intro conjI)
  show "same_snapshot [(''test-policy.yaml'', test_policy), (''open.yaml'', open_policy)]
                 [(''open.yaml'', open_policy), (''test-policy.yaml'', test_policy)]"
    by (simp add: same_snapshot_def same_policy_test same_policy_open)
  show "Evaluate [(''test-policy.yaml'', test_policy), (''open.yaml'', open_policy)]
        ''hr-agent'' ''files'' ''read'' (Some [(''path'', GString ''/legal/contract.docx'')])
     = \<lparr>Decision_Allow = False,
        Decision_Reason = ''Path /legal/contract.docx does not match required prefix /hr-docs/'',
        Decision_Version = 1\<rparr>"
    by (simp add: Evaluate_def test_policy_def hr_perm_def finance_perm_def decide_def
        check_condition_def index_map_def HasPrefix_def)
  show "Evaluate [(''open.yaml'', open_policy), (''test-policy.yaml'', test_policy)]
        ''hr-agent'' ''files'' ''read'' (Some [(''path'', GString ''/legal/contract.docx'')])
     = \<lparr>Decision_Allow = True, Decision_Reason = ''Policy allows this action'',
        Decision_Version = 2\<rparr>"
    by (simp add: Evaluate_def open_policy_def decide_def)
  show "same_snapshot [(''test-policy.yaml'', test_policy)]
                   [(''test-policy.yaml'', test_policy_swapped)]"
    by (simp add: same_snapshot_def same_policy_swapped)
  show "Decision_Reason (Evaluate [(''test-policy.yaml'', test_policy)]
        ''finance-agent'' ''payments'' ''create''
        (Some [(''amount'', GFloat64 0x40C3880000000000), (''currency'', GString ''GBP'')]))
     = ''Amount 10000.00 exceeds max_amount=5000.00''"
    by (simp add: Evaluate_def test_policy_def finance_perm_def decide_def
        check_max_amount_10000)
  show "Decision_Reason (Evaluate [(''test-policy.yaml'', test_policy_swapped)]
        ''finance-agent'' ''payments'' ''create''
        (Some [(''amount'', GFloat64 0x40C3880000000000), (''currency'', GString ''GBP'')]))
     = ''Currency GBP not in allowed list''"
    by (simp add: Evaluate_def test_policy_swapped_def finance_perm_swapped_def decide_def
        check_currencies)
qed

theorem Evaluate_deterministic_single_match_witness:
  "same_snapshot [(''test-policy.yaml'', test_policy), (''audit.yaml'', audit_policy)]
                 [(''audit.yaml'', audit_policy), (''test-policy.yaml'', test_policy_swapped)]
   \<and> single_match [(''test-policy.yaml'', test_policy), (''audit.yaml'', audit_policy)]
        ''finance-agent'' ''payments'' ''create''
   \<and> single_failure [(''test-policy.yaml'', test_policy), (''audit.yaml'', audit_policy)]
        ''finance-agent'' ''payments'' ''create''
        (Some [(''amount'', GFloat64 0x40C3880000000000), (''currency'', GString ''USD'')])
   \<and> Evaluate [(''audit.yaml'', audit_policy), (''test-policy.yaml'', test_policy_swapped)]
        ''finance-agent'' ''payments'' ''create''
        (Some [(''amount'', GFloat64 0x40C3880000000000), (''currency'', GString ''USD'')])
     = \<lparr>Decision_Allow = False,
        Decision_Reason = ''Amount 10000.00 exceeds max_amount=5000.00'',
        Decision_Version = 1\<rparr>"
proof -
  let ?ps = "[(''test-policy.yaml'', test_policy), (''audit.yaml'', audit_policy)]"
  let ?qs = "[(''audit.yaml'', audit_policy), (''test-policy.yaml'', test_policy_swapped)]"
  let ?params = "Some [(''amount'', GFloat64 0x40C3880000000000), (''currency'', GString ''USD'')]"
  have h1: "same_snapshot ?ps ?qs"
    by (simp add: same_snapshot_def same_policy_swapped same_policy_audit)
  have h2: "single_match ?ps ''finance-agent'' ''payments'' ''create''"
    by (simp add: single_match_def policy_matches_def agent_matches_def perm_matches_def
          test_policy_def audit_policy_def finance_perm_def hr_perm_def)
  have h3: "single_failure ?ps ''finance-agent'' ''payments'' ''create'' ?params"
    by (simp add: single_failure_def failing_def test_policy_def audit_policy_def
          finance_perm_def hr_perm_def perm_matches_def check_max_amount_10000 check_currencies)
  have ev: "Evaluate ?ps ''finance-agent'' ''payments'' ''create'' ?params
     = \<lparr>Decision_Allow = False,
        Decision_Reason = ''Amount 10000.00 exceeds max_amount=5000.00'',
        Decision_Version = 1\<rparr>"
    by (simp add: Evaluate_def test_policy_def finance_perm_def decide_def
        check_max_amount_10000)
  from Evaluate_deterministic_single_match [of ?ps ?qs "''finance-agent''" "''payments''"
      "''create''" ?params] h1 h2 h3
  have "Evaluate ?qs ''finance-agent'' ''payments'' ''create'' ?params
        = Evaluate ?ps ''finance-agent'' ''payments'' ''create'' ?params"
    by blast
  with ev h1 h2 h3 show ?thesis by simp
qed

subsection \<open>The digest\<close>








subsection \<open>Serialization does not see the order of a map\<close>

lemma those_map:
  "those (map f xs)
   = (if \<forall>x \<in> set xs. f x \<noteq> None then Some (map (\<lambda>x. the (f x)) xs) else None)"
  by (induction xs) (auto split: option.splits)









subsection \<open>There are more maps than digests\<close>











end
